theory Spec2Isabelle
  imports Complex_Main "HOL-Library.AList"
begin

section \<open>JavaScript values\<close>

text \<open>
  An event is the result of \<^verbatim>\<open>JSON.parse\<close>, so its payload is a JSON value; reading a
  property that is not there gives \<^verbatim>\<open>undefined\<close>, which is a value of its own here.
  Numbers are the exact rationals they denote. Objects are association lists in insertion
  order, looked up by key; they carry their own properties only (the names this program
  reads are not members of any built-in prototype). JavaScript enumerates keys that look
  like array indices before the others; no property below depends on the order of keys.
\<close>

datatype jsval =
    JUndef
  | JNull
  | JBool bool
  | JNum rat
  | JStr string
  | JArr "jsval list"
  | JObj "(string \<times> jsval) list"

datatype js_error = TypeError

definition bindE :: "js_error + 'a \<Rightarrow> ('a \<Rightarrow> js_error + 'b) \<Rightarrow> js_error + 'b" where
  "bindE m f = (case m of Inl err \<Rightarrow> Inl err | Inr x \<Rightarrow> f x)"

text \<open>\<^verbatim>\<open>!v\<close> is false exactly on the truthy values.\<close>

fun truthy :: "jsval \<Rightarrow> bool" where
  "truthy JUndef = False"
| "truthy JNull = False"
| "truthy (JBool b) = b"
| "truthy (JNum r) = (r \<noteq> 0)"
| "truthy (JStr s) = (s \<noteq> [])"
| "truthy (JArr xs) = True"
| "truthy (JObj kvs) = True"

fun nullish :: "jsval \<Rightarrow> bool" where
  "nullish JUndef = True"
| "nullish JNull = True"
| "nullish v = False"

text \<open>\<^verbatim>\<open>v.k\<close> for a property name \<open>k\<close>: a TypeError on \<^verbatim>\<open>undefined\<close> and \<^verbatim>\<open>null\<close>.\<close>

fun get_prop :: "jsval \<Rightarrow> string \<Rightarrow> js_error + jsval" where
  "get_prop JUndef k = Inl TypeError"
| "get_prop JNull k = Inl TypeError"
| "get_prop (JObj kvs) k = Inr (case map_of kvs k of None \<Rightarrow> JUndef | Some v \<Rightarrow> v)"
| "get_prop v k = Inr JUndef"

text \<open>\<^verbatim>\<open>v?.k\<close>\<close>

definition opt_prop :: "jsval \<Rightarrow> string \<Rightarrow> jsval" where
  "opt_prop v k = (if nullish v then JUndef else (case get_prop v k of Inl err \<Rightarrow> JUndef | Inr x \<Rightarrow> x))"

text \<open>\<^verbatim>\<open>v?.[0]\<close>\<close>

fun opt_index0 :: "jsval \<Rightarrow> jsval" where
  "opt_index0 (JArr []) = JUndef"
| "opt_index0 (JArr (x # xs)) = x"
| "opt_index0 (JStr []) = JUndef"
| "opt_index0 (JStr (c # cs)) = JStr [c]"
| "opt_index0 (JObj kvs) = (case map_of kvs ''0'' of None \<Rightarrow> JUndef | Some v \<Rightarrow> v)"
| "opt_index0 v = JUndef"

fun isArray :: "jsval \<Rightarrow> bool" where
  "isArray (JArr xs) = True"
| "isArray v = False"

fun elements :: "jsval \<Rightarrow> jsval list" where
  "elements (JArr xs) = xs"
| "elements v = []"

subsection \<open>Property keys\<close>

text \<open>
  A value used as a computed key (\<^verbatim>\<open>obj[v]\<close>) is converted to a string. Tool-call ids and
  task ids are strings on the wire, and a string is its own key. The other values print as
  JavaScript prints them, except that a number that is not an integer is written as a
  fraction; nothing below depends on how a number prints.
\<close>

fun digits :: "nat \<Rightarrow> string" where
  "digits n = (if n < 10 then [char_of (48 + n)] else digits (n div 10) @ [char_of (48 + n mod 10)])"

declare digits.simps [simp del]

definition int_to_string :: "int \<Rightarrow> string" where
  "int_to_string i = (if i < 0 then CHR ''-'' # digits (nat (- i)) else digits (nat i))"

definition number_to_string :: "rat \<Rightarrow> string" where
  "number_to_string r =
     (let (n, d) = quotient_of r
      in if d = 1 then int_to_string n else int_to_string n @ ''/'' @ int_to_string d)"

fun join_comma :: "string list \<Rightarrow> string" where
  "join_comma [] = []"
| "join_comma [s] = s"
| "join_comma (s # t # ss) = s @ '','' @ join_comma (t # ss)"

fun ToString :: "jsval \<Rightarrow> string" where
  "ToString JUndef = ''undefined''"
| "ToString JNull = ''null''"
| "ToString (JBool b) = (if b then ''true'' else ''false'')"
| "ToString (JNum r) = number_to_string r"
| "ToString (JStr s) = s"
| "ToString (JArr xs) = join_comma (map (\<lambda>x. if nullish x then [] else ToString x) xs)"
| "ToString (JObj kvs) = ''[object Object]''"

definition prop_key :: "jsval \<Rightarrow> string" where
  "prop_key v = ToString v"

section \<open>Data model\<close>

text \<open>
  \<^verbatim>\<open>types.ts\<close> as the hook uses it. A field that may be missing from an object is an
  option, \<open>None\<close> when the key is not there: a completed or failed event for an unknown
  id spreads \<^verbatim>\<open>undefined\<close> and leaves a ToolCall without id, name and arguments.
\<close>

datatype status = Started | Completed | Failed

record ToolCall =
  tc_id :: "jsval option"
  tool_name :: "jsval option"
  arguments :: "jsval option"
  tc_status :: "status option"
  result :: "jsval option"
  tc_error :: "jsval option"

record ThinkingProgress =
  task_id :: jsval
  tool_calls :: "(string \<times> ToolCall) list"
  is_complete :: bool
  final_output :: "jsval option"
  error :: "jsval option"

record AgentEvent =
  ev_task_id :: string
  event_type :: string
  data :: jsval
  ev_error :: jsval
  progress :: jsval

text \<open>
  The content of a transcript message is a value of the event or the text
  \<^verbatim>\<open>JSON.stringify(event.data, null, 2)\<close>, kept as the value it renders.
\<close>

datatype msg_content = Content jsval | Stringified jsval

record Message =
  msg_id :: int
  role :: string
  content :: msg_content
  timestamp :: int
  thinking :: "ThinkingProgress option"

text \<open>
  Everything \<^verbatim>\<open>handleWSMessage\<close> reads or writes: the React state behind the setters, the
  three refs of the hook, and the timers it starts (the delay in milliseconds of each
  \<^verbatim>\<open>setTimeout\<close>, whose callback clears the steering status).
\<close>

record app_state =
  currentThinking :: "ThinkingProgress option"
  thinkingRef :: "ThinkingProgress option"
  messages :: "Message list"
  loading :: bool
  currentTaskId :: "string option"
  cancelling :: bool
  steering :: bool
  steerMode :: bool
  steeringStatus :: "string option"
  subAgentProgress :: "(string \<times> ThinkingProgress) list"
  subAgentProgressRef :: "(string \<times> ThinkingProgress) list"
  researchProgress :: jsval
  processedTasksRef :: "string set"
  timeouts :: "nat list"

definition initial_state :: app_state where
  "initial_state =
     \<lparr> currentThinking = None, thinkingRef = None, messages = [], loading = False,
       currentTaskId = None, cancelling = False, steering = False, steerMode = False,
       steeringStatus = None, subAgentProgress = [], subAgentProgressRef = [],
       researchProgress = JNull, processedTasksRef = {}, timeouts = [] \<rparr>"

section \<open>The updaters of \<^verbatim>\<open>handleWSMessage\<close>\<close>

text \<open>
  The functions passed to \<^verbatim>\<open>updateThinking\<close> and \<^verbatim>\<open>updateSubAgentThinking\<close>. The main
  branch and the sub-agent branch of the source spell out the same four functions for the
  tool-action and completion-failed events; each is written once here.
\<close>

definition new_progress :: "jsval \<Rightarrow> ThinkingProgress" where
  "new_progress tid =
     \<lparr> task_id = tid, tool_calls = [], is_complete = False, final_output = None, error = None \<rparr>"

definition empty_call :: ToolCall where
  "empty_call =
     \<lparr> tc_id = None, tool_name = None, arguments = None, tc_status = None, result = None,
       tc_error = None \<rparr>"

text \<open>\<^verbatim>\<open>{ ...prev.tool_calls[key] }\<close>\<close>

definition spread_call :: "(string \<times> ToolCall) list \<Rightarrow> string \<Rightarrow> ToolCall" where
  "spread_call calls k = (case map_of calls k of None \<Rightarrow> empty_call | Some c \<Rightarrow> c)"

definition started_updater ::
  "AgentEvent \<Rightarrow> jsval \<Rightarrow> ThinkingProgress option \<Rightarrow> js_error + ThinkingProgress option" where
  "started_updater e toolCall prev =
     (let base = (case prev of None \<Rightarrow> new_progress (JStr (ev_task_id e)) | Some p \<Rightarrow> p)
      in bindE (get_prop toolCall ''id'') (\<lambda>i.
         bindE (get_prop toolCall ''function'') (\<lambda>f.
         bindE (get_prop f ''name'') (\<lambda>n.
         bindE (get_prop f ''arguments'') (\<lambda>a.
           Inr (Some (base \<lparr> tool_calls :=
             AList.update (prop_key i)
               \<lparr> tc_id = Some i, tool_name = Some n, arguments = Some a,
                 tc_status = Some Started, result = None, tc_error = None \<rparr>
               (tool_calls base) \<rparr>)))))))"

definition completed_updater ::
  "jsval \<Rightarrow> jsval \<Rightarrow> ThinkingProgress option \<Rightarrow> js_error + ThinkingProgress option" where
  "completed_updater resp toolCall prev =
     (case prev of
        None \<Rightarrow> Inr None
      | Some p \<Rightarrow>
          bindE (get_prop toolCall ''id'') (\<lambda>i.
          bindE (get_prop resp ''output_data'') (\<lambda>out.
            Inr (Some (p \<lparr> tool_calls :=
              AList.update (prop_key i)
                ((spread_call (tool_calls p) (prop_key i))
                   \<lparr> tc_status := Some Completed, result := Some out \<rparr>)
                (tool_calls p) \<rparr>)))))"

definition failed_updater ::
  "AgentEvent \<Rightarrow> jsval \<Rightarrow> ThinkingProgress option \<Rightarrow> js_error + ThinkingProgress option" where
  "failed_updater e toolCall prev =
     (case prev of
        None \<Rightarrow> Inr None
      | Some p \<Rightarrow>
          bindE (get_prop toolCall ''id'') (\<lambda>i.
            Inr (Some (p \<lparr> tool_calls :=
              AList.update (prop_key i)
                ((spread_call (tool_calls p) (prop_key i))
                   \<lparr> tc_status := Some Failed, tc_error := Some (ev_error e) \<rparr>)
                (tool_calls p) \<rparr>))))"

definition completion_failed_updater ::
  "AgentEvent \<Rightarrow> ThinkingProgress option \<Rightarrow> js_error + ThinkingProgress option" where
  "completion_failed_updater e prev =
     Inr (case prev of None \<Rightarrow> None | Some p \<Rightarrow> Some (p \<lparr> error := Some (ev_error e) \<rparr>))"

text \<open>The three terminal updaters of the sub-agent branch.\<close>

definition agent_output_updater ::
  "AgentEvent \<Rightarrow> ThinkingProgress option \<Rightarrow> js_error + ThinkingProgress option" where
  "agent_output_updater e prev =
     Inr (case prev of
            None \<Rightarrow> None
          | Some p \<Rightarrow> Some (p \<lparr> is_complete := True, final_output := Some (data e) \<rparr>))"

definition run_cancelled_updater ::
  "ThinkingProgress option \<Rightarrow> js_error + ThinkingProgress option" where
  "run_cancelled_updater prev =
     Inr (case prev of
            None \<Rightarrow> None
          | Some p \<Rightarrow>
              Some (p \<lparr> is_complete := True, error := Some (JStr ''Task cancelled by user'') \<rparr>))"

text \<open>\<^verbatim>\<open>event.error || 'Agent failed to complete the task'\<close>\<close>

definition failure_text :: "AgentEvent \<Rightarrow> jsval" where
  "failure_text e =
     (if truthy (ev_error e) then ev_error e else JStr ''Agent failed to complete the task'')"

definition run_failed_updater ::
  "AgentEvent \<Rightarrow> ThinkingProgress option \<Rightarrow> js_error + ThinkingProgress option" where
  "run_failed_updater e prev =
     Inr (case prev of
            None \<Rightarrow> None
          | Some p \<Rightarrow> Some (p \<lparr> is_complete := True, error := Some (failure_text e) \<rparr>))"

text \<open>
  \<^verbatim>\<open>updateThinking\<close> stores the updater's result in the state and in \<^verbatim>\<open>thinkingRef\<close>;
  \<^verbatim>\<open>updateSubAgentThinking\<close> leaves the registry and its ref alone when the updater
  returns null. An updater runs when the event is handled: one event is processed wholly
  before the next.
\<close>

definition updateThinking ::
  "(ThinkingProgress option \<Rightarrow> js_error + ThinkingProgress option) \<Rightarrow> app_state
     \<Rightarrow> js_error + app_state" where
  "updateThinking updater s =
     bindE (updater (currentThinking s)) (\<lambda>next.
       Inr (s \<lparr> currentThinking := next, thinkingRef := next \<rparr>))"

definition updateSubAgentThinking ::
  "string \<Rightarrow> (ThinkingProgress option \<Rightarrow> js_error + ThinkingProgress option) \<Rightarrow> app_state
     \<Rightarrow> js_error + app_state" where
  "updateSubAgentThinking taskId updater s =
     bindE (updater (map_of (subAgentProgress s) taskId)) (\<lambda>next.
       case next of
         None \<Rightarrow> Inr s
       | Some n \<Rightarrow>
           (let updated = AList.update taskId n (subAgentProgress s)
            in Inr (s \<lparr> subAgentProgress := updated, subAgentProgressRef := updated \<rparr>)))"

section \<open>\<^verbatim>\<open>handleWSMessage\<close>\<close>

text \<open>\<^verbatim>\<open>event.data?.args?.[0]\<close>\<close>

definition args0 :: "AgentEvent \<Rightarrow> jsval" where
  "args0 e = opt_index0 (opt_prop (data e) ''args'')"

text \<open>
  The switch taken when \<^verbatim>\<open>subAgentProgressRef.current[event.task_id]\<close> is there. The cases
  \<^verbatim>\<open>batch_progress\<close> and \<^verbatim>\<open>batch_completed\<close> have no \<^verbatim>\<open>break\<close>: they fall through into the
  case of a started tool action.
\<close>

definition sub_agent_event :: "app_state \<Rightarrow> AgentEvent \<Rightarrow> js_error + app_state" where
  "sub_agent_event s e =
     (let t = event_type e; tid = ev_task_id e
      in if t = ''batch_progress'' \<or> t = ''batch_completed''
            \<or> t = ''progress_update_tool_action_started'' then
           (let toolCall = args0 e
            in if \<not> truthy toolCall then Inr s
               else updateSubAgentThinking tid (started_updater e toolCall) s)
         else if t = ''progress_update_tool_action_completed'' then
           (let resp = opt_prop (data e) ''result''; toolCall = opt_prop resp ''tool_call''
            in if \<not> truthy toolCall then Inr s
               else updateSubAgentThinking tid (completed_updater resp toolCall) s)
         else if t = ''progress_update_tool_action_failed'' then
           (let toolCall = args0 e
            in if \<not> truthy toolCall then Inr s
               else updateSubAgentThinking tid (failed_updater e toolCall) s)
         else if t = ''progress_update_completion_failed'' then
           updateSubAgentThinking tid (completion_failed_updater e) s
         else if t = ''agent_output'' then
           bindE (updateSubAgentThinking tid (agent_output_updater e) s) (\<lambda>s1.
             Inr (s1 \<lparr> processedTasksRef := insert tid (processedTasksRef s1) \<rparr>))
         else if t = ''run_cancelled'' then
           bindE (updateSubAgentThinking tid run_cancelled_updater s) (\<lambda>s1.
             Inr (s1 \<lparr> processedTasksRef := insert tid (processedTasksRef s1) \<rparr>))
         else if t = ''run_failed'' then
           bindE (updateSubAgentThinking tid (run_failed_updater e) s) (\<lambda>s1.
             Inr (s1 \<lparr> processedTasksRef := insert tid (processedTasksRef s1) \<rparr>))
         else Inr s)"

text \<open>The batch-level switch: \<^verbatim>\<open>typeof event.progress === 'number'\<close> decides where the
  percentage is read.\<close>

definition batch_pct :: "AgentEvent \<Rightarrow> jsval" where
  "batch_pct e = (case progress e of JNum n \<Rightarrow> JNum n | _ \<Rightarrow> opt_prop (data e) ''progress'')"

definition batch_progress_event :: "app_state \<Rightarrow> AgentEvent \<Rightarrow> app_state" where
  "batch_progress_event s e =
     (let pct = batch_pct e in if pct \<noteq> JUndef then s \<lparr> researchProgress := pct \<rparr> else s)"

definition batch_completed_event :: "app_state \<Rightarrow> app_state" where
  "batch_completed_event s = s \<lparr> researchProgress := JNum 100 \<rparr>"

text \<open>The \<^verbatim>\<open>forEach\<close> over the task ids a research call returned.\<close>

definition register_ids ::
  "jsval list \<Rightarrow> (string \<times> ThinkingProgress) list \<Rightarrow> (string \<times> ThinkingProgress) list" where
  "register_ids taskIds prev =
     fold (\<lambda>i updated.
             if map_of updated (prop_key i) = None
             then AList.update (prop_key i) (new_progress i) updated
             else updated)
       taskIds prev"

definition start_research_batch :: "jsval list \<Rightarrow> app_state \<Rightarrow> app_state" where
  "start_research_batch taskIds s1 =
     (let updated = register_ids taskIds (subAgentProgress s1)
      in s1 \<lparr> researchProgress := JNum 0, subAgentProgress := updated,
              subAgentProgressRef := updated \<rparr>)"

definition tool_action_completed_event :: "app_state \<Rightarrow> AgentEvent \<Rightarrow> js_error + app_state" where
  "tool_action_completed_event s e =
     (let resp = opt_prop (data e) ''result''; toolCall = opt_prop resp ''tool_call''
      in if \<not> truthy toolCall then Inr s
         else bindE (updateThinking (completed_updater resp toolCall) s) (\<lambda>s1.
           if opt_prop (opt_prop (opt_prop resp ''tool_call'') ''function'') ''name''
                = JStr ''research''
           then bindE (get_prop resp ''output_data'') (\<lambda>out.
                  Inr (if isArray out then start_research_batch (elements out) s1 else s1))
           else Inr s1))"

text \<open>The three terminal cases of the main switch; \<open>now\<close> is the clock that
  \<^verbatim>\<open>Date.now()\<close> and \<^verbatim>\<open>new Date()\<close> read.\<close>

definition assistant_message :: "int \<Rightarrow> msg_content \<Rightarrow> ThinkingProgress option \<Rightarrow> Message" where
  "assistant_message now c t =
     \<lparr> msg_id = now, role = ''assistant'', content = c, timestamp = now, thinking = t \<rparr>"

definition output_content :: "jsval \<Rightarrow> msg_content" where
  "output_content d =
     (case d of
        JStr text \<Rightarrow> Content d
      | _ \<Rightarrow> (let fo = opt_prop d ''final_output''
              in if nullish fo then Stringified d else Content fo))"

text \<open>\<^verbatim>\<open>[...prev.slice(0, -1), { ...last, thinking: finished }]\<close>\<close>

definition attach_thinking :: "ThinkingProgress \<Rightarrow> Message list \<Rightarrow> Message list" where
  "attach_thinking finished prev = butlast prev @ [(last prev) \<lparr> thinking := Some finished \<rparr>]"

definition agent_output_event :: "int \<Rightarrow> app_state \<Rightarrow> AgentEvent \<Rightarrow> app_state" where
  "agent_output_event now s e =
     (if ev_task_id e \<in> processedTasksRef s then s
      else
        (let appended = messages s @ [assistant_message now (output_content (data e)) None];
             finished = (case thinkingRef s of
                           None \<Rightarrow> None
                         | Some t \<Rightarrow>
                             Some (t \<lparr> is_complete := True, final_output := Some (data e) \<rparr>));
             msgs = (case finished of
                       None \<Rightarrow> appended
                     | Some f \<Rightarrow> attach_thinking f appended)
         in s \<lparr> messages := msgs, currentThinking := None, loading := False,
                currentTaskId := None, steering := False, steerMode := False,
                steeringStatus := None, researchProgress := JNull,
                processedTasksRef := insert (ev_task_id e) (processedTasksRef s) \<rparr>))"

text \<open>\<^verbatim>\<open>snap && Object.keys(snap.tool_calls).length\<close> guards the snapshot of a cancelled or
  failed run.\<close>

definition snapshot_with :: "jsval \<Rightarrow> ThinkingProgress option \<Rightarrow> ThinkingProgress option" where
  "snapshot_with err snap =
     (case snap of
        None \<Rightarrow> None
      | Some p \<Rightarrow>
          if tool_calls p \<noteq> [] then Some (p \<lparr> is_complete := True, error := Some err \<rparr>)
          else None)"

definition run_ended ::
  "int \<Rightarrow> string \<Rightarrow> ThinkingProgress option \<Rightarrow> app_state \<Rightarrow> AgentEvent \<Rightarrow> app_state" where
  "run_ended now message snapshotThinking s e =
     s \<lparr> messages := messages s @ [assistant_message now (Content (JStr message)) snapshotThinking],
         currentThinking := None, loading := False, cancelling := False,
         currentTaskId := None, steering := False, steerMode := False,
         steeringStatus := None, researchProgress := JNull,
         processedTasksRef := insert (ev_task_id e) (processedTasksRef s) \<rparr>"

definition run_cancelled_event :: "int \<Rightarrow> app_state \<Rightarrow> AgentEvent \<Rightarrow> app_state" where
  "run_cancelled_event now s e =
     (if ev_task_id e \<in> processedTasksRef s then s
      else run_ended now ''Task was cancelled.''
             (snapshot_with (JStr ''Task cancelled by user'') (thinkingRef s)) s e)"

definition run_failed_event :: "int \<Rightarrow> app_state \<Rightarrow> AgentEvent \<Rightarrow> app_state" where
  "run_failed_event now s e =
     (if ev_task_id e \<in> processedTasksRef s then s
      else run_ended now ''Failed to get agent response.''
             (snapshot_with (failure_text e) (thinkingRef s)) s e)"

definition main_event :: "int \<Rightarrow> app_state \<Rightarrow> AgentEvent \<Rightarrow> js_error + app_state" where
  "main_event now s e =
     (let t = event_type e
      in if t = ''progress_update_tool_action_started'' then
           (let toolCall = args0 e
            in if \<not> truthy toolCall then Inr s
               else updateThinking (started_updater e toolCall) s)
         else if t = ''progress_update_tool_action_completed'' then
           tool_action_completed_event s e
         else if t = ''progress_update_tool_action_failed'' then
           (let toolCall = args0 e
            in if \<not> truthy toolCall then Inr s
               else updateThinking (failed_updater e toolCall) s)
         else if t = ''progress_update_completion_failed'' then
           updateThinking (completion_failed_updater e) s
         else if t = ''run_steering_applied'' then
           Inr (s \<lparr> steeringStatus := Some ''applied'', steering := False,
                    timeouts := timeouts s @ [2000] \<rparr>)
         else if t = ''run_steering_failed'' then
           Inr (s \<lparr> steeringStatus := Some ''failed'', steering := False, steerMode := False,
                    timeouts := timeouts s @ [3000] \<rparr>)
         else if t = ''agent_output'' then Inr (agent_output_event now s e)
         else if t = ''run_cancelled'' then Inr (run_cancelled_event now s e)
         else if t = ''run_failed'' then Inr (run_failed_event now s e)
         else Inr s)"

definition handleWSMessage :: "int \<Rightarrow> app_state \<Rightarrow> AgentEvent \<Rightarrow> js_error + app_state" where
  "handleWSMessage now s e =
     (if map_of (subAgentProgressRef s) (ev_task_id e) \<noteq> None then sub_agent_event s e
      else if event_type e = ''batch_progress'' then Inr (batch_progress_event s e)
      else if event_type e = ''batch_completed'' then Inr (batch_completed_event s)
      else main_event now s e)"

text \<open>Events are handled one after the other; an exception ends the run.\<close>

fun handle_all :: "int \<Rightarrow> app_state \<Rightarrow> AgentEvent list \<Rightarrow> js_error + app_state" where
  "handle_all now s [] = Inr s"
| "handle_all now s (e # es) =
     (case handleWSMessage now s e of Inl err \<Rightarrow> Inl err | Inr s1 \<Rightarrow> handle_all now s1 es)"

section \<open>The carousel's percentage\<close>







section \<open>\<^verbatim>\<open>parseFinalOutput\<close>\<close>

text \<open>
  \<^verbatim>\<open>JSON.parse\<close> is the runtime's: the parser takes it as the function \<open>JSON_parse\<close>, which
  gives \<open>None\<close> where \<^verbatim>\<open>JSON.parse\<close> throws a SyntaxError.
\<close>

record parsed_output =
  results :: "jsval list option"
  findings :: "jsval list option"

definition empty_output :: parsed_output where
  "empty_output = \<lparr> results = None, findings = None \<rparr>"

text \<open>\<^verbatim>\<open>if (typeof parsed === 'string') { try { parsed = JSON.parse(parsed) } catch { return {} } }\<close>:
  \<open>None\<close> is the return from the catch.\<close>

definition decode_string :: "(string \<Rightarrow> jsval option) \<Rightarrow> jsval \<Rightarrow> jsval option" where
  "decode_string JSON_parse v = (case v of JStr text \<Rightarrow> JSON_parse text | _ \<Rightarrow> Some v)"

text \<open>The two conditional expressions at the end of the function.\<close>

definition results_of :: "jsval \<Rightarrow> js_error + jsval list option" where
  "results_of parsed =
     (if isArray parsed then Inr (Some (elements parsed))
      else if isArray (opt_prop parsed ''results'')
      then bindE (get_prop parsed ''results'') (\<lambda>r. Inr (Some (elements r)))
      else Inr None)"

definition findings_of :: "jsval \<Rightarrow> js_error + jsval list option" where
  "findings_of parsed =
     (if isArray (opt_prop parsed ''findings'')
      then bindE (get_prop parsed ''findings'') (\<lambda>f. Inr (Some (elements f)))
      else if isArray parsed then Inr (Some (elements parsed))
      else Inr None)"

definition shape_of :: "jsval \<Rightarrow> js_error + parsed_output" where
  "shape_of parsed =
     bindE (results_of parsed) (\<lambda>rs.
     bindE (findings_of parsed) (\<lambda>fs.
       Inr \<lparr> results = rs, findings = fs \<rparr>))"

definition parseFinalOutput ::
  "(string \<Rightarrow> jsval option) \<Rightarrow> jsval \<Rightarrow> js_error + parsed_output" where
  "parseFinalOutput JSON_parse finalOutput =
     (if \<not> truthy finalOutput then Inr empty_output
      else case decode_string JSON_parse finalOutput of
             None \<Rightarrow> Inr empty_output
           | Some parsed \<Rightarrow>
               if \<not> isArray parsed \<and> opt_prop parsed ''final_output'' \<noteq> JUndef
               then bindE (get_prop parsed ''final_output'') (\<lambda>inner.
                      case decode_string JSON_parse inner of
                        None \<Rightarrow> Inr empty_output
                      | Some unwrapped \<Rightarrow> shape_of unwrapped)
               else shape_of parsed)"

section \<open>Vocabulary of the properties\<close>

definition terminal_event :: "AgentEvent \<Rightarrow> bool" where
  "terminal_event e \<longleftrightarrow>
     event_type e = ''agent_output'' \<or> event_type e = ''run_cancelled''
       \<or> event_type e = ''run_failed''"

text \<open>What one call of \<^verbatim>\<open>updateSubAgentThinking\<close> may change: the registry and its ref, and
  in the registry the entry of the one task.\<close>

definition registry_frame :: "string \<Rightarrow> app_state \<Rightarrow> app_state \<Rightarrow> bool" where
  "registry_frame tid s s1 \<longleftrightarrow>
     (\<exists>r rr. s1 = s \<lparr> subAgentProgress := r, subAgentProgressRef := rr \<rparr>
        \<and> (\<forall>k. k \<noteq> tid \<longrightarrow> map_of r k = map_of (subAgentProgress s) k))"

text \<open>The registry and the ref the router reads hold the same entries.\<close>

definition in_sync :: "app_state \<Rightarrow> bool" where
  "in_sync s \<longleftrightarrow> subAgentProgressRef s = subAgentProgress s"

text \<open>The task ids an event spawns: those of a completed \<^verbatim>\<open>research\<close> call of the main
  task whose output is an array; \<open>None\<close> for every other event.\<close>

definition spawned_ids :: "app_state \<Rightarrow> AgentEvent \<Rightarrow> jsval list option" where
  "spawned_ids s e =
     (let resp = opt_prop (data e) ''result''
      in if map_of (subAgentProgressRef s) (ev_task_id e) = None
            \<and> event_type e = ''progress_update_tool_action_completed''
            \<and> opt_prop (opt_prop (opt_prop resp ''tool_call'') ''function'') ''name''
                = JStr ''research''
            \<and> isArray (opt_prop resp ''output_data'')
         then Some (elements (opt_prop resp ''output_data''))
         else None)"

text \<open>The updater the sub-agent switch passes for an event; \<open>None\<close> where it breaks
  before any update or logs the event as unhandled.\<close>

definition sub_agent_updater ::
  "AgentEvent \<Rightarrow> (ThinkingProgress option \<Rightarrow> js_error + ThinkingProgress option) option" where
  "sub_agent_updater e =
     (let t = event_type e
      in if t = ''batch_progress'' \<or> t = ''batch_completed''
            \<or> t = ''progress_update_tool_action_started'' then
           (if truthy (args0 e) then Some (started_updater e (args0 e)) else None)
         else if t = ''progress_update_tool_action_completed'' then
           (let resp = opt_prop (data e) ''result''; toolCall = opt_prop resp ''tool_call''
            in if truthy toolCall then Some (completed_updater resp toolCall) else None)
         else if t = ''progress_update_tool_action_failed'' then
           (if truthy (args0 e) then Some (failed_updater e (args0 e)) else None)
         else if t = ''progress_update_completion_failed'' then
           Some (completion_failed_updater e)
         else if t = ''agent_output'' then Some (agent_output_updater e)
         else if t = ''run_cancelled'' then Some run_cancelled_updater
         else if t = ''run_failed'' then Some (run_failed_updater e)
         else None)"

text \<open>An updater keeps a finished progress finished, under the same task id.\<close>

definition keeps_done :: "(ThinkingProgress option \<Rightarrow> js_error + ThinkingProgress option) \<Rightarrow> bool" where
  "keeps_done u \<longleftrightarrow>
     (\<forall>p n. u (Some p) = Inr (Some n) \<and> is_complete p \<longrightarrow> is_complete n \<and> task_id n = task_id p)"

text \<open>The updater the main switch passes to \<^verbatim>\<open>updateThinking\<close>, if any.\<close>

definition main_updater ::
  "AgentEvent \<Rightarrow> (ThinkingProgress option \<Rightarrow> js_error + ThinkingProgress option) option" where
  "main_updater e =
     (let t = event_type e
      in if t = ''progress_update_tool_action_started'' then
           (if truthy (args0 e) then Some (started_updater e (args0 e)) else None)
         else if t = ''progress_update_tool_action_completed'' then
           (let resp = opt_prop (data e) ''result''; toolCall = opt_prop resp ''tool_call''
            in if truthy toolCall then Some (completed_updater resp toolCall) else None)
         else if t = ''progress_update_tool_action_failed'' then
           (if truthy (args0 e) then Some (failed_updater e (args0 e)) else None)
         else if t = ''progress_update_completion_failed'' then
           Some (completion_failed_updater e)
         else None)"




section \<open>Example events and states\<close>

definition tool_call_json :: "string \<Rightarrow> string \<Rightarrow> jsval" where
  "tool_call_json i n =
     JObj [(''id'', JStr i),
           (''function'', JObj [(''name'', JStr n), (''arguments'', JStr ''{}'')])]"

definition plain_event :: "string \<Rightarrow> string \<Rightarrow> jsval \<Rightarrow> AgentEvent" where
  "plain_event tid t d =
     \<lparr> ev_task_id = tid, event_type = t, data = d, ev_error = JUndef, progress = JUndef \<rparr>"

definition started_event :: "string \<Rightarrow> string \<Rightarrow> string \<Rightarrow> AgentEvent" where
  "started_event tid i n =
     plain_event tid ''progress_update_tool_action_started''
       (JObj [(''args'', JArr [tool_call_json i n])])"

definition completed_event :: "string \<Rightarrow> string \<Rightarrow> string \<Rightarrow> jsval \<Rightarrow> AgentEvent" where
  "completed_event tid i n out =
     plain_event tid ''progress_update_tool_action_completed''
       (JObj [(''result'', JObj [(''tool_call'', tool_call_json i n), (''output_data'', out)])])"

text \<open>A JSON decoder that knows one text, for running the parser on examples.\<close>

definition only_empty_array :: "string \<Rightarrow> jsval option" where
  "only_empty_array text = (if text = ''[]'' then Some (JArr []) else None)"

text \<open>The registry after a research call has spawned the sub-agent \<open>a\<close>, which has
  finished.\<close>

definition finished_a :: ThinkingProgress where
  "finished_a = (new_progress (JStr ''a'')) \<lparr> is_complete := True, final_output := Some (JStr ''done'') \<rparr>"

definition state_a_finished :: app_state where
  "state_a_finished =
     initial_state \<lparr> subAgentProgress := [(''a'', finished_a)],
                     subAgentProgressRef := [(''a'', finished_a)],
                     researchProgress := JNum 0, processedTasksRef := {''a''} \<rparr>"

definition started_call :: "string \<Rightarrow> string \<Rightarrow> ToolCall" where
  "started_call i n =
     \<lparr> tc_id = Some (JStr i), tool_name = Some (JStr n), arguments = Some (JStr ''{}''),
       tc_status = Some Started, result = None, tc_error = None \<rparr>"

text \<open>The sub-agent \<open>a\<close> right after it was spawned, and after a tool call of \<open>a\<close>
  started once \<open>a\<close> had finished.\<close>

definition state_a_spawned :: app_state where
  "state_a_spawned =
     initial_state \<lparr> subAgentProgress := [(''a'', new_progress (JStr ''a''))],
                     subAgentProgressRef := [(''a'', new_progress (JStr ''a''))],
                     researchProgress := JNum 0 \<rparr>"

definition state_a_restarted :: app_state where
  "state_a_restarted =
     state_a_finished
       \<lparr> subAgentProgress :=
           [(''a'', finished_a \<lparr> tool_calls := [(''t1'', started_call ''t1'' ''search'')] \<rparr>)],
         subAgentProgressRef :=
           [(''a'', finished_a \<lparr> tool_calls := [(''t1'', started_call ''t1'' ''search'')] \<rparr>)] \<rparr>"

text \<open>The finished sub-agent \<open>a\<close> after a late \<^verbatim>\<open>run_cancelled\<close>.\<close>

definition state_a_cancelled :: app_state where
  "state_a_cancelled =
     state_a_finished
       \<lparr> subAgentProgress :=
           [(''a'', finished_a \<lparr> error := Some (JStr ''Task cancelled by user'') \<rparr>)],
         subAgentProgressRef :=
           [(''a'', finished_a \<lparr> error := Some (JStr ''Task cancelled by user'') \<rparr>)] \<rparr>"

text \<open>The main task \<open>m\<close>: its search call \<open>t1\<close> started, then completed; and the
  started state after a completed event for the id \<open>zz\<close> that never started.\<close>

definition progress_m :: ThinkingProgress where
  "progress_m =
     (new_progress (JStr ''m'')) \<lparr> tool_calls := [(''t1'', started_call ''t1'' ''search'')] \<rparr>"

definition progress_m_completed :: ThinkingProgress where
  "progress_m_completed =
     (new_progress (JStr ''m''))
       \<lparr> tool_calls :=
           [(''t1'', (started_call ''t1'' ''search'')
                       \<lparr> tc_status := Some Completed, result := Some (JStr ''out'') \<rparr>)] \<rparr>"

definition progress_m_unknown :: ThinkingProgress where
  "progress_m_unknown =
     progress_m
       \<lparr> tool_calls :=
           tool_calls progress_m
             @ [(''zz'', empty_call \<lparr> tc_status := Some Completed,
                                       result := Some (JStr ''out'') \<rparr>)] \<rparr>"

definition state_m :: "ThinkingProgress \<Rightarrow> app_state" where
  "state_m p = initial_state \<lparr> currentThinking := Some p, thinkingRef := Some p \<rparr>"

text \<open>Three sub-agents spawned by \<open>m\<close>, two of them finished, after \<open>m\<close> has
  answered; the argument is what the batch progress tracker holds.\<close>

definition registry_two_of_three :: "(string \<times> ThinkingProgress) list" where
  "registry_two_of_three =
     [(''a'', (new_progress (JStr ''a'')) \<lparr> is_complete := True, final_output := Some (JStr ''done'') \<rparr>),
      (''b'', (new_progress (JStr ''b'')) \<lparr> is_complete := True, final_output := Some (JStr ''done'') \<rparr>),
      (''c'', new_progress (JStr ''c''))]"

definition state_two_of_three :: "jsval \<Rightarrow> app_state" where
  "state_two_of_three tracker =
     initial_state
       \<lparr> messages := [assistant_message 0 (Content (JStr ''answer'')) None],
         subAgentProgress := registry_two_of_three,
         subAgentProgressRef := registry_two_of_three,
         researchProgress := tracker,
         processedTasksRef := {''a'', ''b'', ''m''} \<rparr>"

definition three_ids :: "jsval list" where
  "three_ids = [JStr ''a'', JStr ''b'', JStr ''c'']"

text \<open>The main task \<open>m\<close> has answered after one tool call; then the run of the next
  task \<open>n\<close> is cancelled before any of its tool calls starts.\<close>

definition answered_message :: Message where
  "answered_message =
     assistant_message 0 (Content (JStr ''answer''))
       (Some (progress_m \<lparr> is_complete := True, final_output := Some (JStr ''answer'') \<rparr>))"

definition state_m_answered :: app_state where
  "state_m_answered =
     initial_state \<lparr> thinkingRef := Some progress_m, messages := [answered_message],
                     processedTasksRef := {''m''} \<rparr>"

definition state_n_cancelled :: app_state where
  "state_n_cancelled =
     state_m_answered
       \<lparr> messages :=
           [answered_message,
            assistant_message 0 (Content (JStr ''Task was cancelled.''))
              (Some (progress_m \<lparr> is_complete := True,
                                   error := Some (JStr ''Task cancelled by user'') \<rparr>))],
         processedTasksRef := {''m'', ''n''} \<rparr>"

section \<open>Properties\<close>

subsection \<open>Reading properties\<close>

lemma bindE_Inr: "bindE m f = Inr y \<longleftrightarrow> (\<exists>x. m = Inr x \<and> f x = Inr y)"
  by (cases m) (auto simp: bindE_def)

lemma get_prop_of_opt_prop: "opt_prop v k \<noteq> JUndef \<Longrightarrow> get_prop v k = Inr (opt_prop v k)"
  by (cases v) (auto simp: opt_prop_def split: option.splits)

lemma isArray_opt_prop: "isArray (opt_prop v k) \<Longrightarrow> get_prop v k = Inr (opt_prop v k)"
  by (rule get_prop_of_opt_prop) auto

subsection \<open>The payload parser\<close>

lemma shape_of_total: "\<exists>out. shape_of parsed = Inr out"
  by (auto simp: shape_of_def results_of_def findings_of_def bindE_def isArray_opt_prop)

lemma parseFinalOutput_total: "\<exists>out. parseFinalOutput JSON_parse raw = Inr out"
  using shape_of_total
  by (auto simp: parseFinalOutput_def bindE_def get_prop_of_opt_prop split: option.splits)

text \<open>
  C8. Whatever the input and whatever \<^verbatim>\<open>JSON.parse\<close> does with a text, the parser returns
  a value and raises nothing. A text that does not decode gives the empty result. When the
  decoded input is not an array and has a \<^verbatim>\<open>final_output\<close> field, that field, decoded once
  more when it is a text, is what the results and findings are read from.
\<close>

theorem parseFinalOutput_never_throws:
  "(\<exists>out. parseFinalOutput JSON_parse raw = Inr out)
   \<and> (JSON_parse text = None \<longrightarrow> parseFinalOutput JSON_parse (JStr text) = Inr empty_output)
   \<and> (truthy raw \<and> decode_string JSON_parse raw = Some w \<and> \<not> isArray w
        \<and> opt_prop w ''final_output'' = v \<and> v \<noteq> JUndef \<longrightarrow>
      parseFinalOutput JSON_parse raw =
        (case decode_string JSON_parse v of
           None \<Rightarrow> Inr empty_output
         | Some unwrapped \<Rightarrow> shape_of unwrapped))"
  using parseFinalOutput_total[of JSON_parse raw]
  by (auto simp: parseFinalOutput_def bindE_def get_prop_of_opt_prop decode_string_def
           split: option.splits)

theorem parseFinalOutput_never_throws_witness:
  "only_empty_array ''{not json'' = None
   \<and> parseFinalOutput only_empty_array (JStr ''{not json'') = Inr empty_output
   \<and> parseFinalOutput only_empty_array (JObj [(''final_output'', JStr ''[]'')])
       = Inr \<lparr> results = Some [], findings = Some [] \<rparr>"
proof -
  let ?w = "JObj [(''final_output'', JStr ''[]'')]"
  have bad: "only_empty_array ''{not json'' = None"
    by (simp add: only_empty_array_def)
  have wrapped: "truthy ?w \<and> decode_string only_empty_array ?w = Some ?w \<and> \<not> isArray ?w
      \<and> opt_prop ?w ''final_output'' = JStr ''[]'' \<and> JStr ''[]'' \<noteq> JUndef"
    by (simp add: decode_string_def opt_prop_def)
  have inner: "decode_string only_empty_array (JStr ''[]'') = Some (JArr [])"
    by (simp add: decode_string_def only_empty_array_def)
  have shape: "shape_of (JArr []) = Inr \<lparr> results = Some [], findings = Some [] \<rparr>"
    by (simp add: shape_of_def results_of_def findings_of_def bindE_def opt_prop_def)
  from parseFinalOutput_never_throws
         [of only_empty_array ?w "''{not json''" ?w "JStr ''[]''"] bad wrapped inner shape
  show ?thesis by simp
qed

subsection \<open>Events routed to a sub-agent\<close>

lemma registry_frame_refl: "registry_frame tid s s"
proof -
  have "s = s \<lparr> subAgentProgress := subAgentProgress s,
                subAgentProgressRef := subAgentProgressRef s \<rparr>"
    by simp
  then show ?thesis unfolding registry_frame_def by blast
qed

lemma updateSubAgentThinking_frame:
  assumes "updateSubAgentThinking tid u s = Inr s1"
  shows "registry_frame tid s s1"
proof (cases "u (map_of (subAgentProgress s) tid)")
  case (Inl err)
  with assms show ?thesis by (simp add: updateSubAgentThinking_def bindE_def)
next
  case (Inr nxt)
  show ?thesis
  proof (cases nxt)
    case None
    with Inr assms have "s1 = s" by (simp add: updateSubAgentThinking_def bindE_def)
    then show ?thesis by (simp add: registry_frame_refl)
  next
    case (Some n)
    let ?r = "AList.update tid n (subAgentProgress s)"
    from Some Inr assms have "s1 = s \<lparr> subAgentProgress := ?r, subAgentProgressRef := ?r \<rparr>"
      by (auto simp add: updateSubAgentThinking_def bindE_def Let_def)
    moreover have "\<forall>k. k \<noteq> tid \<longrightarrow> map_of ?r k = map_of (subAgentProgress s) k"
      by (simp add: update_conv')
    ultimately show ?thesis unfolding registry_frame_def by blast
  qed
qed

lemma sub_agent_event_frame:
  assumes "sub_agent_event s e = Inr s'"
  shows "\<exists>s1. registry_frame (ev_task_id e) s s1 \<and>
     (s' = s1 \<or> (terminal_event e
         \<and> s' = s1 \<lparr> processedTasksRef := insert (ev_task_id e) (processedTasksRef s1) \<rparr>))"
  using assms
  unfolding sub_agent_event_def Let_def terminal_event_def
  by (auto simp: bindE_Inr split: if_splits dest: updateSubAgentThinking_frame
           intro: registry_frame_refl)

lemma routed_event_frame:
  assumes "map_of (subAgentProgressRef s) (ev_task_id e) \<noteq> None"
    and "handleWSMessage now s e = Inr s'"
  shows "\<exists>r rr P.
       s' = s \<lparr> subAgentProgress := r, subAgentProgressRef := rr, processedTasksRef := P \<rparr>
     \<and> (\<forall>k. k \<noteq> ev_task_id e \<longrightarrow> map_of r k = map_of (subAgentProgress s) k)
     \<and> (P = processedTasksRef s
          \<or> (terminal_event e \<and> P = insert (ev_task_id e) (processedTasksRef s)))"
proof -
  from assms have "sub_agent_event s e = Inr s'" by (simp add: handleWSMessage_def)
  from sub_agent_event_frame[OF this] obtain s1 where
    f: "registry_frame (ev_task_id e) s s1" and
    d: "s' = s1 \<or> (terminal_event e
          \<and> s' = s1 \<lparr> processedTasksRef := insert (ev_task_id e) (processedTasksRef s1) \<rparr>)"
    by blast
  from f obtain r rr where s1: "s1 = s \<lparr> subAgentProgress := r, subAgentProgressRef := rr \<rparr>"
    and k: "\<forall>k. k \<noteq> ev_task_id e \<longrightarrow> map_of r k = map_of (subAgentProgress s) k"
    unfolding registry_frame_def by blast
  from d show ?thesis
  proof
    assume "s' = s1"
    with s1 have "s' = s \<lparr> subAgentProgress := r, subAgentProgressRef := rr,
                           processedTasksRef := processedTasksRef s \<rparr>"
      by simp
    with k show ?thesis by blast
  next
    assume "terminal_event e
      \<and> s' = s1 \<lparr> processedTasksRef := insert (ev_task_id e) (processedTasksRef s1) \<rparr>"
    with s1 have "terminal_event e"
      "s' = s \<lparr> subAgentProgress := r, subAgentProgressRef := rr,
                processedTasksRef := insert (ev_task_id e) (processedTasksRef s) \<rparr>"
      by simp_all
    with k show ?thesis by blast
  qed
qed

text \<open>
  C5. An event whose task id is in the registry the router reads changes, if anything, the
  registry entry of that task and, when it is a terminal event, the set of processed
  tasks: the main progress and its ref, the transcript, the batch progress tracker and
  every other part of the state are as before, whatever the event type.
\<close>

theorem sub_agent_event_touches_only_its_entry:
  assumes "map_of (subAgentProgressRef s) (ev_task_id e) \<noteq> None"
    and "handleWSMessage now s e = Inr s'"
  shows "currentThinking s' = currentThinking s \<and> thinkingRef s' = thinkingRef s
     \<and> messages s' = messages s \<and> researchProgress s' = researchProgress s
     \<and> (\<forall>k. k \<noteq> ev_task_id e \<longrightarrow>
           map_of (subAgentProgress s') k = map_of (subAgentProgress s) k)
     \<and> (processedTasksRef s' = processedTasksRef s
          \<or> (terminal_event e
               \<and> processedTasksRef s' = insert (ev_task_id e) (processedTasksRef s)))
     \<and> (\<exists>r rr P. s' = s \<lparr> subAgentProgress := r, subAgentProgressRef := rr,
                           processedTasksRef := P \<rparr>)"
proof -
  from routed_event_frame[OF assms] obtain r rr P where
    s': "s' = s \<lparr> subAgentProgress := r, subAgentProgressRef := rr, processedTasksRef := P \<rparr>"
    and k: "\<forall>k. k \<noteq> ev_task_id e \<longrightarrow> map_of r k = map_of (subAgentProgress s) k"
    and P: "P = processedTasksRef s
          \<or> (terminal_event e \<and> P = insert (ev_task_id e) (processedTasksRef s))"
    by blast
  from s' have "\<exists>r rr P. s' = s \<lparr> subAgentProgress := r, subAgentProgressRef := rr,
                           processedTasksRef := P \<rparr>"
    by blast
  with s' k P show ?thesis by simp
qed

lemmas example_defs =
  state_a_finished_def state_a_restarted_def state_a_spawned_def state_a_cancelled_def
  progress_m_def progress_m_completed_def progress_m_unknown_def state_m_def
  state_two_of_three_def registry_two_of_three_def three_ids_def answered_message_def
  state_m_answered_def state_n_cancelled_def finished_a_def started_call_def
  started_event_def completed_event_def plain_event_def tool_call_json_def initial_state_def
  new_progress_def

lemmas handler_defs =
  handleWSMessage_def sub_agent_event_def main_event_def updateSubAgentThinking_def
  updateThinking_def started_updater_def completed_updater_def failed_updater_def
  completion_failed_updater_def agent_output_updater_def run_cancelled_updater_def
  run_failed_updater_def tool_action_completed_event_def start_research_batch_def
  register_ids_def batch_progress_event_def batch_completed_event_def batch_pct_def
  agent_output_event_def run_cancelled_event_def run_failed_event_def run_ended_def
  snapshot_with_def assistant_message_def output_content_def attach_thinking_def
  failure_text_def spread_call_def empty_call_def bindE_def args0_def opt_prop_def prop_key_def
  Let_def

theorem sub_agent_event_touches_only_its_entry_witness:
  "map_of (subAgentProgressRef state_a_finished)
       (ev_task_id (started_event ''a'' ''t1'' ''search'')) \<noteq> None
   \<and> handleWSMessage 0 state_a_finished (started_event ''a'' ''t1'' ''search'')
       = Inr state_a_restarted
   \<and> currentThinking state_a_restarted = currentThinking state_a_finished
   \<and> messages state_a_restarted = messages state_a_finished
   \<and> researchProgress state_a_restarted = researchProgress state_a_finished
   \<and> processedTasksRef state_a_restarted = processedTasksRef state_a_finished"
proof -
  have reg: "map_of (subAgentProgressRef state_a_finished)
       (ev_task_id (started_event ''a'' ''t1'' ''search'')) \<noteq> None"
    by (simp add: example_defs)
  have run: "handleWSMessage 0 state_a_finished (started_event ''a'' ''t1'' ''search'')
       = Inr state_a_restarted"
    by (simp add: example_defs handler_defs)
  from sub_agent_event_touches_only_its_entry[OF reg run] reg run
  show ?thesis by (simp add: terminal_event_def started_event_def plain_event_def)
qed

text \<open>
  C10. A \<^verbatim>\<open>batch_progress\<close> or \<^verbatim>\<open>batch_completed\<close> event whose task id is in the registry
  falls through to the guard of the started case: when \<^verbatim>\<open>event.data?.args?.[0]\<close> is falsy,
  as it is when the data has no \<^verbatim>\<open>args\<close>, the state is returned as it was. With or without
  \<^verbatim>\<open>args\<close>, such an event never writes the batch progress tracker.
\<close>

theorem batch_event_for_sub_agent_changes_nothing:
  assumes "map_of (subAgentProgressRef s) (ev_task_id e) \<noteq> None"
    and "event_type e = ''batch_progress'' \<or> event_type e = ''batch_completed''"
  shows "(\<not> truthy (args0 e) \<longrightarrow> handleWSMessage now s e = Inr s)
     \<and> (opt_prop (data e) ''args'' = JUndef \<longrightarrow> handleWSMessage now s e = Inr s)
     \<and> (\<forall>s'. handleWSMessage now s e = Inr s' \<longrightarrow> researchProgress s' = researchProgress s)"
proof (intro conjI impI allI)
  assume "\<not> truthy (args0 e)"
  with assms show "handleWSMessage now s e = Inr s"
    by (auto simp: handleWSMessage_def sub_agent_event_def Let_def)
next
  assume "opt_prop (data e) ''args'' = JUndef"
  then have "\<not> truthy (args0 e)" by (simp add: args0_def)
  with assms show "handleWSMessage now s e = Inr s"
    by (auto simp: handleWSMessage_def sub_agent_event_def Let_def)
next
  fix s' assume "handleWSMessage now s e = Inr s'"
  from routed_event_frame[OF assms(1) this]
  show "researchProgress s' = researchProgress s" by auto
qed

theorem batch_event_for_sub_agent_changes_nothing_witness:
  "map_of (subAgentProgressRef state_a_finished)
       (ev_task_id (plain_event ''a'' ''batch_progress'' (JObj [(''progress'', JNum 40)]))) \<noteq> None
   \<and> event_type (plain_event ''a'' ''batch_progress'' (JObj [(''progress'', JNum 40)]))
       = ''batch_progress''
   \<and> opt_prop (data (plain_event ''a'' ''batch_progress'' (JObj [(''progress'', JNum 40)])))
        ''args'' = JUndef
   \<and> handleWSMessage 0 state_a_finished
        (plain_event ''a'' ''batch_progress'' (JObj [(''progress'', JNum 40)]))
       = Inr state_a_finished"
proof -
  let ?e = "plain_event ''a'' ''batch_progress'' (JObj [(''progress'', JNum 40)])"
  have reg: "map_of (subAgentProgressRef state_a_finished) (ev_task_id ?e) \<noteq> None"
    by (simp add: example_defs)
  have ty: "event_type ?e = ''batch_progress'' \<or> event_type ?e = ''batch_completed''"
    by (simp add: plain_event_def)
  have no: "opt_prop (data ?e) ''args'' = JUndef"
    by (simp add: plain_event_def opt_prop_def)
  from batch_event_for_sub_agent_changes_nothing[OF reg ty, of 0] reg no
  show ?thesis by (simp add: plain_event_def)
qed

subsection \<open>Growth of the registry\<close>

lemma opt_prop_object: "opt_prop v k \<noteq> JUndef \<Longrightarrow> \<exists>kvs. v = JObj kvs"
  by (cases v) (auto simp: opt_prop_def)

lemma register_step:
  "register_ids (i # ids) reg =
     register_ids ids (if map_of reg (prop_key i) = None
                       then AList.update (prop_key i) (new_progress i) reg else reg)"
  by (simp add: register_ids_def)

lemma register_ids_keeps: "map_of reg k = Some p \<Longrightarrow> map_of (register_ids ids reg) k = Some p"
proof (induction ids arbitrary: reg)
  case Nil
  then show ?case by (simp add: register_ids_def)
next
  case (Cons i ids)
  show ?case unfolding register_step
    by (rule Cons.IH) (use Cons.prems in \<open>auto simp: update_conv'\<close>)
qed



lemma spawn_returns:
  assumes "spawned_ids s e = Some ids"
  shows "\<exists>s1. updateThinking (completed_updater (opt_prop (data e) ''result'') (opt_prop (opt_prop (data e) ''result'') ''tool_call'')) s = Inr s1
     \<and> subAgentProgress s1 = subAgentProgress s
     \<and> handleWSMessage now s e = Inr (s1 \<lparr> researchProgress := JNum 0,
          subAgentProgress := register_ids ids (subAgentProgress s),
          subAgentProgressRef := register_ids ids (subAgentProgress s) \<rparr>)"
proof -
  let ?resp = "opt_prop (data e) ''result''"
  let ?tc = "opt_prop ?resp ''tool_call''"
  from assms have main: "map_of (subAgentProgressRef s) (ev_task_id e) = None"
    and ty: "event_type e = ''progress_update_tool_action_completed''"
    and nm: "opt_prop (opt_prop ?tc ''function'') ''name'' = JStr ''research''"
    and arr: "isArray (opt_prop ?resp ''output_data'')"
    and ids: "ids = elements (opt_prop ?resp ''output_data'')"
    by (auto simp: spawned_ids_def Let_def split: if_splits)
  from nm have "opt_prop ?tc ''function'' \<noteq> JUndef" by (auto simp: opt_prop_def)
  then obtain kvs where tc: "?tc = JObj kvs" using opt_prop_object by blast
  from arr have go: "get_prop ?resp ''output_data'' = Inr (opt_prop ?resp ''output_data'')"
    by (rule isArray_opt_prop)
  have "\<exists>s1. updateThinking (completed_updater ?resp ?tc) s = Inr s1 \<and> subAgentProgress s1 = subAgentProgress s"
    by (cases "currentThinking s") (auto simp: updateThinking_def completed_updater_def bindE_def tc go)
  then obtain s1 where s1: "updateThinking (completed_updater ?resp ?tc) s = Inr s1" "subAgentProgress s1 = subAgentProgress s" by blast
  have "handleWSMessage now s e = Inr (s1 \<lparr> researchProgress := JNum 0,
          subAgentProgress := register_ids ids (subAgentProgress s),
          subAgentProgressRef := register_ids ids (subAgentProgress s) \<rparr>)"
    using main ty nm s1 go tc arr ids
    by (simp add: handleWSMessage_def main_event_def tool_action_completed_event_def
                  start_research_batch_def Let_def bindE_def)
  with s1 show ?thesis by blast
qed


lemma updateThinking_registry:
  "updateThinking u s = Inr s1 \<Longrightarrow>
     subAgentProgress s1 = subAgentProgress s \<and> subAgentProgressRef s1 = subAgentProgressRef s"
  by (auto simp: updateThinking_def bindE_Inr)

lemma main_event_registry:
  assumes "main_event now s e = Inr s'" and "spawned_ids s e = None"
    and "map_of (subAgentProgressRef s) (ev_task_id e) = None"
  shows "subAgentProgress s' = subAgentProgress s \<and> subAgentProgressRef s' = subAgentProgressRef s"
proof (cases "event_type e = ''progress_update_tool_action_completed''")
  case True
  let ?resp = "opt_prop (data e) ''result''"
  let ?tc = "opt_prop ?resp ''tool_call''"
  from True assms(1) have t: "tool_action_completed_event s e = Inr s'"
    by (simp add: main_event_def Let_def)
  from True assms(2,3) have no: "\<not> (opt_prop (opt_prop ?tc ''function'') ''name'' = JStr ''research''
                \<and> isArray (opt_prop ?resp ''output_data''))"
    by (auto simp: spawned_ids_def Let_def split: if_splits)
  have g: "get_prop ?resp ''output_data'' = Inr x \<Longrightarrow> x = opt_prop ?resp ''output_data''" for x
    by (cases ?resp) (auto simp: opt_prop_def)
  from t no show ?thesis
    unfolding tool_action_completed_event_def Let_def
    by (auto simp: bindE_Inr split: if_splits dest!: updateThinking_registry g)
next
  case False
  with assms(1) show ?thesis
    unfolding main_event_def Let_def
    by (auto simp: agent_output_event_def run_cancelled_event_def run_failed_event_def
                   run_ended_def Let_def
             split: if_splits dest!: updateThinking_registry)
qed

lemma sub_agent_event_alt:
  "sub_agent_event s e =
     (case sub_agent_updater e of
        None \<Rightarrow> Inr s
      | Some u \<Rightarrow>
          bindE (updateSubAgentThinking (ev_task_id e) u s) (\<lambda>s1.
            Inr (if terminal_event e
                 then s1 \<lparr> processedTasksRef := insert (ev_task_id e) (processedTasksRef s1) \<rparr>
                 else s1)))"
  by (simp add: sub_agent_event_def sub_agent_updater_def terminal_event_def Let_def bindE_def
           split: sum.splits)

lemma updateSubAgentThinking_cases:
  assumes "updateSubAgentThinking tid u s = Inr s1"
  shows "(u (map_of (subAgentProgress s) tid) = Inr None \<and> s1 = s)
     \<or> (\<exists>n. u (map_of (subAgentProgress s) tid) = Inr (Some n)
            \<and> s1 = s \<lparr> subAgentProgress := AList.update tid n (subAgentProgress s),
                        subAgentProgressRef := AList.update tid n (subAgentProgress s) \<rparr>)"
proof (cases "u (map_of (subAgentProgress s) tid)")
  case (Inl err)
  with assms show ?thesis by (simp add: updateSubAgentThinking_def bindE_def)
next
  case (Inr nxt)
  with assms show ?thesis
    by (cases nxt) (auto simp: updateSubAgentThinking_def bindE_def Let_def)
qed

lemma updateSubAgentThinking_keys:
  assumes "updateSubAgentThinking tid u s = Inr s1" and "in_sync s"
    and "map_of (subAgentProgressRef s) tid \<noteq> None"
  shows "dom (map_of (subAgentProgress s1)) = dom (map_of (subAgentProgress s)) \<and> in_sync s1"
proof -
  from assms(2,3) have "tid \<in> dom (map_of (subAgentProgress s))"
    by (auto simp: in_sync_def)
  then have "dom (map_of (AList.update tid n (subAgentProgress s)))
      = dom (map_of (subAgentProgress s))" for n
    by (auto simp: update_conv')
  then have d: "s1 = s \<lparr> subAgentProgress := AList.update tid n (subAgentProgress s),
                        subAgentProgressRef := AList.update tid n (subAgentProgress s) \<rparr>
      \<Longrightarrow> ?thesis" for n
    by (simp add: in_sync_def)
  from updateSubAgentThinking_cases[OF assms(1)] assms(2) d show ?thesis
    by blast
qed

lemma sub_agent_event_keys:
  assumes "sub_agent_event s e = Inr s'" and "in_sync s"
    and "map_of (subAgentProgressRef s) (ev_task_id e) \<noteq> None"
  shows "dom (map_of (subAgentProgress s')) = dom (map_of (subAgentProgress s)) \<and> in_sync s'"
proof (cases "sub_agent_updater e")
  case None
  with assms(1,2) show ?thesis by (simp add: sub_agent_event_alt)
next
  case (Some u)
  with assms(1) obtain s1 where
    u: "updateSubAgentThinking (ev_task_id e) u s = Inr s1" and
    s': "s' = (if terminal_event e
                 then s1 \<lparr> processedTasksRef := insert (ev_task_id e) (processedTasksRef s1) \<rparr>
                 else s1)"
    by (auto simp: sub_agent_event_alt bindE_Inr)
  from updateSubAgentThinking_keys[OF u assms(2,3)] s' show ?thesis
    by (simp add: in_sync_def)
qed





lemma handler_in_sync:
  assumes "handleWSMessage now s e = Inr s'" and "in_sync s"
  shows "in_sync s'"
proof (cases "map_of (subAgentProgressRef s) (ev_task_id e) = None")
  case False
  with assms(1) have "sub_agent_event s e = Inr s'" by (simp add: handleWSMessage_def)
  from sub_agent_event_keys[OF this assms(2) False] show ?thesis by simp
next
  case True
  show ?thesis
  proof (cases "event_type e = ''batch_progress'' \<or> event_type e = ''batch_completed''")
    case batch: True
    with True assms show ?thesis
      by (auto simp: handleWSMessage_def batch_progress_event_def batch_completed_event_def
                     in_sync_def Let_def split: if_splits)
  next
    case False
    with True assms(1) have m: "main_event now s e = Inr s'" by (simp add: handleWSMessage_def)
    show ?thesis
    proof (cases "spawned_ids s e")
      case None
      from main_event_registry[OF m None True] assms(2) show ?thesis by (simp add: in_sync_def)
    next
      case (Some ids)
      from spawn_returns[OF Some, of now] assms(1) show ?thesis by (auto simp: in_sync_def)
    qed
  qed
qed

lemma reachable_in_sync: "in_sync s \<Longrightarrow> handle_all now s es = Inr s' \<Longrightarrow> in_sync s'"
proof (induction es arbitrary: s)
  case Nil
  then show ?case by simp
next
  case (Cons e es)
  then show ?case by (auto split: sum.splits dest: handler_in_sync)
qed

subsection \<open>Completion\<close>

lemma started_keeps_done: "keeps_done (started_updater e tc)"
  by (auto simp: keeps_done_def started_updater_def bindE_Inr)

lemma completed_keeps_done: "keeps_done (completed_updater resp tc)"
  by (auto simp: keeps_done_def completed_updater_def bindE_Inr)

lemma failed_keeps_done: "keeps_done (failed_updater e tc)"
  by (auto simp: keeps_done_def failed_updater_def bindE_Inr)

lemma completion_failed_keeps_done: "keeps_done (completion_failed_updater e)"
  by (auto simp: keeps_done_def completion_failed_updater_def)

lemma terminal_keeps_done:
  "keeps_done (agent_output_updater e)" "keeps_done run_cancelled_updater"
  "keeps_done (run_failed_updater e)"
  by (auto simp: keeps_done_def agent_output_updater_def run_cancelled_updater_def
                 run_failed_updater_def)

lemma sub_agent_updater_keeps_done: "sub_agent_updater e = Some u \<Longrightarrow> keeps_done u"
  by (auto simp: sub_agent_updater_def Let_def started_keeps_done completed_keeps_done
                 failed_keeps_done completion_failed_keeps_done terminal_keeps_done
           split: if_splits)

lemma updateSubAgentThinking_done:
  assumes "updateSubAgentThinking tid u s = Inr s1" and "keeps_done u"
    and "map_of (subAgentProgress s) k = Some p" and "is_complete p"
  shows "\<exists>p'. map_of (subAgentProgress s1) k = Some p' \<and> is_complete p' \<and> task_id p' = task_id p"
proof -
  from updateSubAgentThinking_cases[OF assms(1)] show ?thesis
  proof (elim disjE exE conjE)
    assume "s1 = s"
    with assms(3,4) show ?thesis by simp
  next
    fix n
    assume n: "u (map_of (subAgentProgress s) tid) = Inr (Some n)"
      and s1: "s1 = s \<lparr> subAgentProgress := AList.update tid n (subAgentProgress s),
                        subAgentProgressRef := AList.update tid n (subAgentProgress s) \<rparr>"
    show ?thesis
    proof (cases "k = tid")
      case True
      with n assms(2,3,4) have "is_complete n \<and> task_id n = task_id p"
        by (auto simp: keeps_done_def)
      with True s1 show ?thesis by (simp add: update_conv')
    next
      case False
      with s1 assms(3,4) show ?thesis by (simp add: update_conv')
    qed
  qed
qed

lemma sub_agent_event_done:
  assumes "sub_agent_event s e = Inr s'"
    and "map_of (subAgentProgress s) k = Some p" and "is_complete p"
  shows "\<exists>p'. map_of (subAgentProgress s') k = Some p' \<and> is_complete p' \<and> task_id p' = task_id p"
proof (cases "sub_agent_updater e")
  case None
  with assms show ?thesis by (simp add: sub_agent_event_alt)
next
  case (Some u)
  with assms(1) obtain s1 where
    u: "updateSubAgentThinking (ev_task_id e) u s = Inr s1" and
    s': "s' = (if terminal_event e
                 then s1 \<lparr> processedTasksRef := insert (ev_task_id e) (processedTasksRef s1) \<rparr>
                 else s1)"
    by (auto simp: sub_agent_event_alt bindE_Inr)
  from updateSubAgentThinking_done[OF u sub_agent_updater_keeps_done[OF Some] assms(2,3)] s'
  show ?thesis by simp
qed

lemma unrouted_registry:
  assumes "handleWSMessage now s e = Inr s'"
    and "map_of (subAgentProgressRef s) (ev_task_id e) = None"
  shows "subAgentProgress s' = subAgentProgress s
     \<or> (\<exists>ids. subAgentProgress s' = register_ids ids (subAgentProgress s))"
proof (cases "event_type e = ''batch_progress'' \<or> event_type e = ''batch_completed''")
  case True
  with assms show ?thesis
    by (auto simp: handleWSMessage_def batch_progress_event_def batch_completed_event_def Let_def
             split: if_splits)
next
  case False
  with assms have m: "main_event now s e = Inr s'" by (simp add: handleWSMessage_def)
  show ?thesis
  proof (cases "spawned_ids s e")
    case None
    from main_event_registry[OF m None assms(2)] show ?thesis by simp
  next
    case (Some ids)
    from spawn_returns[OF Some, of now] assms(1) show ?thesis by auto
  qed
qed

lemma handler_done:
  assumes "handleWSMessage now s e = Inr s'"
    and "map_of (subAgentProgress s) k = Some p" and "is_complete p"
  shows "\<exists>p'. map_of (subAgentProgress s') k = Some p' \<and> is_complete p' \<and> task_id p' = task_id p"
proof (cases "map_of (subAgentProgressRef s) (ev_task_id e) = None")
  case False
  with assms(1) have "sub_agent_event s e = Inr s'" by (simp add: handleWSMessage_def)
  from sub_agent_event_done[OF this assms(2,3)] show ?thesis .
next
  case True
  from unrouted_registry[OF assms(1) True] assms(2,3) show ?thesis
    by (auto simp: register_ids_keeps)
qed

lemma attach_thinking_snoc:
  "attach_thinking f (ms @ [m]) = ms @ [m \<lparr> thinking := Some f \<rparr>]"
  by (simp add: attach_thinking_def)

lemma main_updater_keeps_done: "main_updater e = Some u \<Longrightarrow> keeps_done u"
  by (auto simp: main_updater_def Let_def started_keeps_done completed_keeps_done
                 failed_keeps_done completion_failed_keeps_done
           split: if_splits)

lemma main_event_cases:
  assumes "main_event now s e = Inr s'"
  shows "s' = s
     \<or> (\<exists>u s1. main_updater e = Some u \<and> updateThinking u s = Inr s1
           \<and> (s' = s1 \<or> (\<exists>ids. s' = start_research_batch ids s1)))
     \<or> (\<exists>a c d. s' = s \<lparr> steeringStatus := a, steering := False, steerMode := c,
                          timeouts := d \<rparr>)
     \<or> (s' = agent_output_event now s e \<or> s' = run_cancelled_event now s e
          \<or> s' = run_failed_event now s e)"
proof -
  let ?t = "event_type e"
  consider (started) "?t = ''progress_update_tool_action_started''"
    | (completed) "?t = ''progress_update_tool_action_completed''"
    | (failed) "?t = ''progress_update_tool_action_failed''"
    | (completion) "?t = ''progress_update_completion_failed''"
    | (applied) "?t = ''run_steering_applied''"
    | (steer_failed) "?t = ''run_steering_failed''"
    | (answered) "?t = ''agent_output''"
    | (cancelled) "?t = ''run_cancelled''"
    | (run_failed) "?t = ''run_failed''"
    | (other) "?t \<noteq> ''progress_update_tool_action_started''"
        "?t \<noteq> ''progress_update_tool_action_completed''"
        "?t \<noteq> ''progress_update_tool_action_failed''"
        "?t \<noteq> ''progress_update_completion_failed''"
        "?t \<noteq> ''run_steering_applied''" "?t \<noteq> ''run_steering_failed''"
        "?t \<noteq> ''agent_output''" "?t \<noteq> ''run_cancelled''" "?t \<noteq> ''run_failed''"
    by blast
  then show ?thesis
  proof cases
    case started
    with assms show ?thesis
      by (cases "truthy (args0 e)") (simp_all add: main_event_def main_updater_def Let_def)
  next
    case completed
    let ?resp = "opt_prop (data e) ''result''"
    let ?tc = "opt_prop ?resp ''tool_call''"
    from completed assms have t: "tool_action_completed_event s e = Inr s'"
      by (simp add: main_event_def Let_def)
    show ?thesis
    proof (cases "truthy ?tc")
      case False
      with t show ?thesis by (simp add: tool_action_completed_event_def Let_def)
    next
      case True
      with completed have mu: "main_updater e = Some (completed_updater ?resp ?tc)"
        by (simp add: main_updater_def Let_def)
      from True t obtain s1 where
        u: "updateThinking (completed_updater ?resp ?tc) s = Inr s1" and
        r: "s' = s1 \<or> (\<exists>ids. s' = start_research_batch ids s1)"
        by (auto simp: tool_action_completed_event_def Let_def bindE_Inr split: if_splits)
      with mu show ?thesis by blast
    qed
  next
    case failed
    with assms show ?thesis
      by (cases "truthy (args0 e)") (simp_all add: main_event_def main_updater_def Let_def)
  next
    case completion
    with assms show ?thesis
      by (simp add: main_event_def main_updater_def Let_def)
  next
    case applied
    with assms have "s' = s \<lparr> steeringStatus := Some ''applied'', steering := False,
        steerMode := steerMode s, timeouts := timeouts s @ [2000] \<rparr>"
      by (auto simp: main_event_def Let_def)
    then show ?thesis by blast
  next
    case steer_failed
    with assms have "s' = s \<lparr> steeringStatus := Some ''failed'', steering := False,
        steerMode := False, timeouts := timeouts s @ [3000] \<rparr>"
      by (auto simp: main_event_def Let_def)
    then show ?thesis by blast
  next
    case answered
    with assms show ?thesis by (auto simp: main_event_def Let_def)
  next
    case cancelled
    with assms show ?thesis by (auto simp: main_event_def Let_def)
  next
    case run_failed
    with assms show ?thesis by (auto simp: main_event_def Let_def)
  next
    case other
    with assms show ?thesis by (simp add: main_event_def Let_def)
  qed
qed

lemma unrouted_cases:
  assumes "handleWSMessage now s e = Inr s'"
    and "map_of (subAgentProgressRef s) (ev_task_id e) = None"
  shows "s' = s \<or> (\<exists>x. s' = s \<lparr> researchProgress := x \<rparr>) \<or> main_event now s e = Inr s'"
proof (cases "event_type e = ''batch_progress''")
  case True
  with assms show ?thesis
    by (auto simp: handleWSMessage_def batch_progress_event_def Let_def)
next
  case False
  with assms show ?thesis
    by (cases "event_type e = ''batch_completed''")
       (auto simp: handleWSMessage_def batch_completed_event_def)
qed

lemma terminal_event_messages:
  "\<exists>new. messages (agent_output_event now s e) = messages s @ new"
  "\<exists>new. messages (run_cancelled_event now s e) = messages s @ new"
  "\<exists>new. messages (run_failed_event now s e) = messages s @ new"
  by (auto simp: agent_output_event_def run_cancelled_event_def run_failed_event_def
                 run_ended_def attach_thinking_snoc Let_def split: option.splits)

lemma terminal_event_thinking:
  "currentThinking (agent_output_event now s e) = None
     \<or> agent_output_event now s e = s"
  "currentThinking (run_cancelled_event now s e) = None \<or> run_cancelled_event now s e = s"
  "currentThinking (run_failed_event now s e) = None \<or> run_failed_event now s e = s"
  by (auto simp: agent_output_event_def run_cancelled_event_def run_failed_event_def
                 run_ended_def Let_def)

lemma updateThinking_messages: "updateThinking u s = Inr s1 \<Longrightarrow> messages s1 = messages s"
  by (auto simp: updateThinking_def bindE_Inr)

lemma handler_messages:
  assumes "handleWSMessage now s e = Inr s'"
  shows "\<exists>new. messages s' = messages s @ new"
proof (cases "map_of (subAgentProgressRef s) (ev_task_id e) = None")
  case False
  from routed_event_frame[OF False assms] show ?thesis by auto
next
  case True
  from unrouted_cases[OF assms True] show ?thesis
  proof (elim disjE exE)
    assume "main_event now s e = Inr s'"
    from main_event_cases[OF this] show ?thesis
      using terminal_event_messages[of now s e]
      by (elim disjE exE conjE)
         (auto simp: start_research_batch_def Let_def dest: updateThinking_messages)
  qed auto
qed

lemma updateThinking_done:
  assumes "updateThinking u s = Inr s1" and "keeps_done u"
    and "currentThinking s = Some p" and "is_complete p"
  shows "currentThinking s1 = None
     \<or> (\<exists>p'. currentThinking s1 = Some p' \<and> is_complete p' \<and> task_id p' = task_id p)"
  using assms
  by (cases "currentThinking s1") (auto simp: updateThinking_def bindE_Inr keeps_done_def)

lemma handler_main_done:
  assumes "handleWSMessage now s e = Inr s'"
    and "currentThinking s = Some p" and "is_complete p"
  shows "currentThinking s' = None
     \<or> (\<exists>p'. currentThinking s' = Some p' \<and> is_complete p' \<and> task_id p' = task_id p)"
proof (cases "map_of (subAgentProgressRef s) (ev_task_id e) = None")
  case False
  from routed_event_frame[OF False assms(1)] assms(2,3) show ?thesis by auto
next
  case True
  from unrouted_cases[OF assms(1) True] show ?thesis
  proof (elim disjE exE)
    assume "main_event now s e = Inr s'"
    from main_event_cases[OF this] show ?thesis
    proof (elim disjE exE conjE)
      fix u s1
      assume mu: "main_updater e = Some u" and u: "updateThinking u s = Inr s1"
      note d = updateThinking_done[OF u main_updater_keeps_done[OF mu] assms(2,3)]
      { assume "s' = s1" with d show ?thesis by simp }
      { fix ids assume "s' = start_research_batch ids s1"
        with d show ?thesis by (simp add: start_research_batch_def Let_def) }
    qed (use assms(2,3) terminal_event_thinking[of now s e] in auto)
  qed (use assms(2,3) in auto)
qed

text \<open>
  C1, as the code has it. Once a registry entry has \<open>is_complete = true\<close> every event
  leaves it in the registry, complete and under the same task id; a complete live progress
  of the main task stays complete until it is discarded; and the transcript only grows, so
  a snapshot attached to a message is never touched again. The tool calls and the error of
  a finished sub-agent are not frozen: tool-action and completion-failed events still
  write them.
\<close>

theorem completion_is_never_undone:
  assumes "handleWSMessage now s e = Inr s'"
  shows "(\<forall>k p. map_of (subAgentProgress s) k = Some p \<and> is_complete p \<longrightarrow>
            (\<exists>p'. map_of (subAgentProgress s') k = Some p' \<and> is_complete p'
                   \<and> task_id p' = task_id p))
     \<and> (\<forall>p. currentThinking s = Some p \<and> is_complete p \<longrightarrow>
            currentThinking s' = None
            \<or> (\<exists>p'. currentThinking s' = Some p' \<and> is_complete p' \<and> task_id p' = task_id p))
     \<and> (\<exists>new. messages s' = messages s @ new)"
  using handler_done[OF assms] handler_main_done[OF assms] handler_messages[OF assms]
  by blast


theorem completion_is_never_undone_witness:
  "handleWSMessage 0 state_a_finished (started_event ''a'' ''t1'' ''search'')
       = Inr state_a_restarted
   \<and> map_of (subAgentProgress state_a_finished) ''a'' = Some finished_a
   \<and> is_complete finished_a
   \<and> (\<exists>p'. map_of (subAgentProgress state_a_restarted) ''a'' = Some p' \<and> is_complete p'
             \<and> task_id p' = task_id finished_a)"
proof -
  have run: "handleWSMessage 0 state_a_finished (started_event ''a'' ''t1'' ''search'')
       = Inr state_a_restarted"
    by (simp add: example_defs handler_defs)
  have entry: "map_of (subAgentProgress state_a_finished) ''a'' = Some finished_a
      \<and> is_complete finished_a"
    by (simp add: state_a_finished_def finished_a_def)
  from completion_is_never_undone[OF run] run entry show ?thesis by blast
qed

lemma reach_a_finished:
  "handle_all 0 initial_state
       [completed_event ''m'' ''r1'' ''research'' (JArr [JStr ''a'']),
        plain_event ''a'' ''agent_output'' (JStr ''done'')]
     = Inr state_a_finished"
  by (simp add: example_defs handler_defs)

lemma restart_a:
  "handleWSMessage 0 state_a_finished (started_event ''a'' ''t1'' ''search'')
     = Inr state_a_restarted"
  by (simp add: example_defs handler_defs)

text \<open>
  C1 as stated fails: the sub-agent \<open>a\<close> is spawned and finishes, then a started tool
  action for \<open>a\<close> arrives and is written into the finished entry.
\<close>

theorem finished_sub_agent_still_changes:
  "handle_all 0 initial_state
       [completed_event ''m'' ''r1'' ''research'' (JArr [JStr ''a'']),
        plain_event ''a'' ''agent_output'' (JStr ''done'')]
     = Inr state_a_finished
   \<and> map_of (subAgentProgress state_a_finished) ''a'' = Some finished_a
   \<and> is_complete finished_a
   \<and> tool_calls finished_a = []
   \<and> handleWSMessage 0 state_a_finished (started_event ''a'' ''t1'' ''search'')
       = Inr state_a_restarted
   \<and> map_of (subAgentProgress state_a_restarted) ''a''
       = Some (finished_a \<lparr> tool_calls := [(''t1'', started_call ''t1'' ''search'')] \<rparr>)
   \<and> finished_a \<lparr> tool_calls := [(''t1'', started_call ''t1'' ''search'')] \<rparr> \<noteq> finished_a"
proof (intro conjI)
  show "map_of (subAgentProgress state_a_finished) ''a'' = Some finished_a"
    by (simp add: state_a_finished_def)
  show "is_complete finished_a" "tool_calls finished_a = []"
    by (simp_all add: finished_a_def new_progress_def)
  show "map_of (subAgentProgress state_a_restarted) ''a''
       = Some (finished_a \<lparr> tool_calls := [(''t1'', started_call ''t1'' ''search'')] \<rparr>)"
    by (simp add: state_a_restarted_def)
  show "finished_a \<lparr> tool_calls := [(''t1'', started_call ''t1'' ''search'')] \<rparr> \<noteq> finished_a"
    by (simp add: finished_a_def new_progress_def)
qed (rule reach_a_finished restart_a)+

subsection \<open>The idempotency guard\<close>

text \<open>In the main switch a terminal event of a processed task breaks at once.\<close>

lemma main_terminal_event_guarded:
  assumes "map_of (subAgentProgressRef s) (ev_task_id e) = None" and "terminal_event e"
    and "ev_task_id e \<in> processedTasksRef s"
  shows "handleWSMessage now s e = Inr s"
proof -
  from assms(2) consider "event_type e = ''agent_output''" | "event_type e = ''run_cancelled''"
    | "event_type e = ''run_failed''"
    unfolding terminal_event_def by blast
  then show ?thesis
  proof cases
    case 1
    with assms(1,3) show ?thesis
      by (simp add: handleWSMessage_def main_event_def agent_output_event_def Let_def)
  next
    case 2
    with assms(1,3) show ?thesis
      by (simp add: handleWSMessage_def main_event_def run_cancelled_event_def Let_def)
  next
    case 3
    with assms(1,3) show ?thesis
      by (simp add: handleWSMessage_def main_event_def run_failed_event_def Let_def)
  qed
qed

text \<open>
  C2 at its failing input. The sub-agent switch adds the task id to the processed set but
  never asks whether it is there: \<open>a\<close> has finished and is in the set, and the
  \<^verbatim>\<open>run_cancelled\<close> that follows is applied to its entry all the same.
\<close>

theorem processed_sub_agent_is_cancelled_again:
  "handle_all 0 initial_state
       [completed_event ''m'' ''r1'' ''research'' (JArr [JStr ''a'']),
        plain_event ''a'' ''agent_output'' (JStr ''done'')]
     = Inr state_a_finished
   \<and> ev_task_id (plain_event ''a'' ''run_cancelled'' JNull) \<in> processedTasksRef state_a_finished
   \<and> terminal_event (plain_event ''a'' ''run_cancelled'' JNull)
   \<and> handleWSMessage 0 state_a_finished (plain_event ''a'' ''run_cancelled'' JNull)
       = Inr state_a_cancelled
   \<and> map_of (subAgentProgress state_a_finished) ''a'' = Some finished_a
   \<and> map_of (subAgentProgress state_a_cancelled) ''a''
       = Some (finished_a \<lparr> error := Some (JStr ''Task cancelled by user'') \<rparr>)
   \<and> state_a_cancelled \<noteq> state_a_finished"
proof (intro conjI)
  show "ev_task_id (plain_event ''a'' ''run_cancelled'' JNull) \<in> processedTasksRef state_a_finished"
    by (simp add: plain_event_def state_a_finished_def)
  show "terminal_event (plain_event ''a'' ''run_cancelled'' JNull)"
    by (simp add: terminal_event_def plain_event_def)
  show "handleWSMessage 0 state_a_finished (plain_event ''a'' ''run_cancelled'' JNull)
       = Inr state_a_cancelled"
    by (simp add: example_defs handler_defs)
  show "map_of (subAgentProgress state_a_finished) ''a'' = Some finished_a"
    by (simp add: state_a_finished_def)
  show "map_of (subAgentProgress state_a_cancelled) ''a''
       = Some (finished_a \<lparr> error := Some (JStr ''Task cancelled by user'') \<rparr>)"
    by (simp add: state_a_cancelled_def)
  show "state_a_cancelled \<noteq> state_a_finished"
    by (simp add: state_a_cancelled_def state_a_finished_def finished_a_def new_progress_def
                  initial_state_def)
qed (rule reach_a_finished)

subsection \<open>Tool calls\<close>

































subsection \<open>The batch percentage\<close>








subsection \<open>A cancelled run\<close>

lemma reach_m_answered:
  "handle_all 0 initial_state
     [started_event ''m'' ''t1'' ''search'', plain_event ''m'' ''agent_output'' (JStr ''answer'')]
   = Inr state_m_answered"
  by (simp add: example_defs handler_defs)

lemma cancel_n:
  "handleWSMessage 0 state_m_answered (plain_event ''n'' ''run_cancelled'' JNull)
   = Inr state_n_cancelled"
  by (simp add: example_defs handler_defs insert_commute)

lemma cancelled_with_current_ref:
  assumes "map_of (subAgentProgressRef s) (ev_task_id e) = None"
    and "event_type e = ''run_cancelled''" and "ev_task_id e \<notin> processedTasksRef s"
    and "thinkingRef s = currentThinking s"
  shows "\<exists>s'. handleWSMessage now s e = Inr s'
     \<and> messages s' = messages s @
          [assistant_message now (Content (JStr ''Task was cancelled.''))
             (case currentThinking s of
                None \<Rightarrow> None
              | Some p \<Rightarrow>
                  if tool_calls p = [] then None
                  else Some (p \<lparr> is_complete := True,
                                  error := Some (JStr ''Task cancelled by user'') \<rparr>))]"
  using assms
  by (cases "currentThinking s")
     (simp_all add: handleWSMessage_def main_event_def run_cancelled_event_def run_ended_def
                snapshot_with_def Let_def)

text \<open>
  C9 at its failing input. The terminal cases clear the state with
  \<^verbatim>\<open>setCurrentThinking(() => null)\<close> and not with \<^verbatim>\<open>updateThinking\<close>, so \<^verbatim>\<open>thinkingRef\<close>
  keeps the progress of the task that has just ended. The task \<open>m\<close> answers after one
  tool call; the next task \<open>n\<close> is cancelled with no tool call recorded and no progress in
  the state, and its message carries the tool calls of \<open>m\<close>.
\<close>

theorem cancelled_run_shows_previous_task:
  "handle_all 0 initial_state
     [started_event ''m'' ''t1'' ''search'', plain_event ''m'' ''agent_output'' (JStr ''answer'')]
   = Inr state_m_answered
   \<and> currentThinking state_m_answered = None
   \<and> thinkingRef state_m_answered = Some progress_m
   \<and> handleWSMessage 0 state_m_answered (plain_event ''n'' ''run_cancelled'' JNull)
       = Inr state_n_cancelled
   \<and> thinking (last (messages state_n_cancelled))
       = Some (progress_m \<lparr> is_complete := True,
                             error := Some (JStr ''Task cancelled by user'') \<rparr>)
   \<and> task_id progress_m = JStr ''m''"
proof (intro conjI)
  show "currentThinking state_m_answered = None" "thinkingRef state_m_answered = Some progress_m"
    by (simp_all add: state_m_answered_def initial_state_def)
  show "thinking (last (messages state_n_cancelled))
       = Some (progress_m \<lparr> is_complete := True,
                             error := Some (JStr ''Task cancelled by user'') \<rparr>)"
    by (simp add: state_n_cancelled_def assistant_message_def)
  show "task_id progress_m = JStr ''m''"
    by (simp add: progress_m_def new_progress_def)
qed (rule reach_m_answered cancel_n)+


end
